theory Spec2Isabelle
  imports Complex_Main "HOL-Library.Multiset" "HOL-Library.Monad_Syntax"
begin

section \<open>JavaScript numbers\<close>

text \<open>
  A JavaScript \<^verbatim>\<open>number\<close> is either a finite value or one of the three special values
  \<^verbatim>\<open>Infinity\<close>, \<^verbatim>\<open>-Infinity\<close> and \<^verbatim>\<open>NaN\<close>. Finite values are modelled as exact
  reals: rounding, overflow of a finite result to an infinity and the sign of zero are
  not modelled (a zero divisor counts as \<^verbatim>\<open>+0\<close>, which is what \<^verbatim>\<open>stdDev * stdDev\<close> yields).
  The special values and their propagation through the arithmetic operators and the
  \<^verbatim>\<open>Math\<close> functions are written out, so that a division by zero or a logarithm of a
  non-positive argument is visible in the result.
\<close>

datatype number = Num real | PosInf | NegInf | NaN


instantiation number :: "{plus, minus, uminus, times, inverse}"
begin

fun uminus_number :: "number \<Rightarrow> number" where
  "- Num a = Num (- a)"
| "- PosInf = NegInf"
| "- NegInf = PosInf"
| "- NaN = NaN"

fun plus_number :: "number \<Rightarrow> number \<Rightarrow> number" where
  "Num a + Num b = Num (a + b)"
| "NaN + b = NaN"
| "a + NaN = NaN"
| "PosInf + NegInf = NaN"
| "NegInf + PosInf = NaN"
| "PosInf + b = PosInf"
| "a + PosInf = PosInf"
| "NegInf + b = NegInf"
| "a + NegInf = NegInf"

definition minus_number :: "number \<Rightarrow> number \<Rightarrow> number" where
  "a - b = a + (- (b :: number))"

fun times_number :: "number \<Rightarrow> number \<Rightarrow> number" where
  "Num a * Num b = Num (a * b)"
| "NaN * b = NaN"
| "a * NaN = NaN"
| "Num a * PosInf = (if a = 0 then NaN else if 0 < a then PosInf else NegInf)"
| "Num a * NegInf = (if a = 0 then NaN else if 0 < a then NegInf else PosInf)"
| "PosInf * Num b = (if b = 0 then NaN else if 0 < b then PosInf else NegInf)"
| "NegInf * Num b = (if b = 0 then NaN else if 0 < b then NegInf else PosInf)"
| "PosInf * PosInf = PosInf"
| "PosInf * NegInf = NegInf"
| "NegInf * PosInf = NegInf"
| "NegInf * NegInf = PosInf"

fun divide_number :: "number \<Rightarrow> number \<Rightarrow> number" where
  "divide (Num a) (Num b) =
     (if b = 0 then (if a = 0 then NaN else if 0 < a then PosInf else NegInf)
      else Num (a / b))"
| "divide NaN b = NaN"
| "divide a NaN = NaN"
| "divide (Num a) PosInf = Num 0"
| "divide (Num a) NegInf = Num 0"
| "divide PosInf (Num b) = (if 0 \<le> b then PosInf else NegInf)"
| "divide NegInf (Num b) = (if 0 \<le> b then NegInf else PosInf)"
| "divide PosInf b = NaN"
| "divide NegInf b = NaN"

definition inverse_number :: "number \<Rightarrow> number" where
  "inverse a = divide (Num 1) (a :: number)"

instance ..

end

text \<open>The comparison \<^verbatim>\<open>a < b\<close>: false as soon as one side is \<^verbatim>\<open>NaN\<close>.\<close>

fun js_lt :: "number \<Rightarrow> number \<Rightarrow> bool" where
  "js_lt (Num a) (Num b) = (a < b)"
| "js_lt NaN b = False"
| "js_lt a NaN = False"
| "js_lt a NegInf = False"
| "js_lt PosInf b = False"
| "js_lt NegInf b = True"
| "js_lt a PosInf = True"

text \<open>\<^verbatim>\<open>Math.max\<close> and \<^verbatim>\<open>Math.min\<close> return \<^verbatim>\<open>NaN\<close> when an argument is \<^verbatim>\<open>NaN\<close>.\<close>

fun Math_max :: "number \<Rightarrow> number \<Rightarrow> number" where
  "Math_max NaN b = NaN"
| "Math_max a NaN = NaN"
| "Math_max a b = (if js_lt a b then b else a)"

fun Math_min :: "number \<Rightarrow> number \<Rightarrow> number" where
  "Math_min NaN b = NaN"
| "Math_min a NaN = NaN"
| "Math_min a b = (if js_lt b a then b else a)"

fun Math_exp :: "number \<Rightarrow> number" where
  "Math_exp (Num a) = Num (exp a)"
| "Math_exp PosInf = PosInf"
| "Math_exp NegInf = Num 0"
| "Math_exp NaN = NaN"

fun Math_log :: "number \<Rightarrow> number" where
  "Math_log (Num a) = (if a < 0 then NaN else if a = 0 then NegInf else Num (ln a))"
| "Math_log PosInf = PosInf"
| "Math_log NegInf = NaN"
| "Math_log NaN = NaN"

section \<open>The Glaze belief model\<close>

text \<open>\<^verbatim>\<open>userChoice: 0 | 1\<close>: 0 for left, 1 for right.\<close>

datatype choice = Choice0 | Choice1

record TrialData =
  starPosition :: number
  userChoice :: choice

record TaskConfig =
  meanPosition :: number
  stdDev :: number

text \<open>Equation 2, the prior expectation. The hazard rate is clamped first.\<close>

definition psi :: "number \<Rightarrow> number \<Rightarrow> number" where
  "psi Ln_prev H =
     (let h = Math_max (Num 0.000001) (Math_min (Num 0.999999) H);
          stabilityRatio = (Num 1 - h) / h;
          term1 = Math_log (stabilityRatio + Math_exp (- Ln_prev));
          term2 = Math_log (stabilityRatio + Math_exp Ln_prev)
      in Ln_prev + term1 - term2)"

text \<open>Equation 1, the belief update.\<close>

definition update :: "number \<Rightarrow> number \<Rightarrow> number \<Rightarrow> number" where
  "update Ln_prev LLRn H = psi Ln_prev H + LLRn"

definition calculateLLR :: "number \<Rightarrow> TaskConfig \<Rightarrow> number" where
  "calculateLLR x config =
     (let variance = stdDev config * stdDev config
      in (Num 2 * meanPosition config * x) / variance)"

text \<open>
  The loop of \<^verbatim>\<open>getBeliefTrajectory\<close>: \<open>currentL\<close> is the running belief and
  \<open>beliefs\<close> the array that each iteration pushes onto.
\<close>

fun beliefLoop :: "TaskConfig \<Rightarrow> number \<Rightarrow> TrialData list \<Rightarrow> number \<Rightarrow> number list \<Rightarrow> number list" where
  "beliefLoop config H [] currentL beliefs = beliefs"
| "beliefLoop config H (trial # rest) currentL beliefs =
     (let llr = calculateLLR (starPosition trial) config;
          currentL' = update currentL llr H
      in beliefLoop config H rest currentL' (beliefs @ [currentL']))"

definition getBeliefTrajectory :: "TrialData list \<Rightarrow> TaskConfig \<Rightarrow> number \<Rightarrow> number list" where
  "getBeliefTrajectory data config H = beliefLoop config H data (Num 0) []"

text \<open>
  Reading \<^verbatim>\<open>beliefs[i]\<close>: an index outside the array gives \<^verbatim>\<open>undefined\<close>, which the
  arithmetic that follows turns into \<^verbatim>\<open>NaN\<close>.
\<close>

definition at_index :: "number list \<Rightarrow> nat \<Rightarrow> number" where
  "at_index xs i = (if i < length xs then xs ! i else NaN)"

definition beta :: number where
  "beta = Num 1.0"

text \<open>The loop of \<^verbatim>\<open>calculateFitScore\<close>, over the index \<open>i\<close>.\<close>

function nllLoop :: "TrialData list \<Rightarrow> number list \<Rightarrow> nat \<Rightarrow> number \<Rightarrow> number" where
  "nllLoop data beliefs i totalNLL =
     (if i < length data then
        (let L = at_index beliefs i;
             probRight = Num 1 / (Num 1 + Math_exp (- beta * L));
             probLeft = Num 1 - probRight;
             likelihood = (if userChoice (data ! i) = Choice1 then probRight else probLeft)
         in nllLoop data beliefs (i + 1) (totalNLL - Math_log (Math_max (Num (1 / 10 ^ 10)) likelihood)))
      else totalNLL)"
  by pat_completeness auto
termination
  by (relation "measure (\<lambda>(data, beliefs, i, totalNLL). length data - i)") auto

declare nllLoop.simps [simp del]

definition calculateFitScore :: "TrialData list \<Rightarrow> TaskConfig \<Rightarrow> number \<Rightarrow> number" where
  "calculateFitScore data config H =
     (let beliefs = getBeliefTrajectory data config H
      in nllLoop data beliefs 0 (Num 0))"

text \<open>
  The grid search of \<^verbatim>\<open>fitSubjectiveH\<close>. The loop variable \<open>h\<close> starts at a finite
  constant and is only ever increased by a finite constant, so it is kept as a real;
  \<open>minNLL\<close> starts at \<^verbatim>\<open>Infinity\<close>. The constant \<^verbatim>\<open>end\<close> of the source is \<open>end_h\<close>.
\<close>

definition step :: real where "step = 0.01"
definition start :: real where "start = 0.001"
definition end_h :: real where "end_h = 0.999"

function fitLoop :: "TrialData list \<Rightarrow> TaskConfig \<Rightarrow> real \<Rightarrow> real \<Rightarrow> number \<Rightarrow> real \<times> number" where
  "fitLoop data config h bestH minNLL =
     (if h \<le> end_h then
        (let nll = calculateFitScore data config (Num h)
         in if js_lt nll minNLL then fitLoop data config (h + step) h nll
            else fitLoop data config (h + step) bestH minNLL)
      else (bestH, minNLL))"
  by pat_completeness auto
termination
proof (relation "measure (\<lambda>(data, config, h, bestH, minNLL). nat \<lceil>(end_h - h) * 100 + 1\<rceil>)")
  show "wf (measure (\<lambda>(data :: TrialData list, config :: TaskConfig, h, bestH :: real, minNLL :: number).
              nat \<lceil>(end_h - h) * 100 + 1\<rceil>))"
    by simp
qed (simp_all add: step_def end_h_def, linarith+)

declare fitLoop.simps [simp del]

record FitResult =
  fittedH :: number
  beliefTrajectory :: "number list"

definition fitSubjectiveH :: "TrialData list \<Rightarrow> TaskConfig \<Rightarrow> FitResult" where
  "fitSubjectiveH data config =
     (let (bestH, minNLL) = fitLoop data config start 0.5 PosInf
      in \<lparr> fittedH = Num bestH,
           beliefTrajectory = getBeliefTrajectory data config (Num bestH) \<rparr>)"

section \<open>Auxiliary definitions for the proofs\<close>

text \<open>
  The value that \<open>psi\<close> computes on finite arguments, over the reals, with the hazard
  rate already clamped by \<open>clampH\<close>.
\<close>

definition psi_real :: "real \<Rightarrow> real \<Rightarrow> real" where
  "psi_real L h = L + ln ((1 - h) / h + exp (- L)) - ln ((1 - h) / h + exp L)"

definition clampH :: "real \<Rightarrow> real" where
  "clampH H = max 0.000001 (min 0.999999 H)"

text \<open>
  The reference recursion of the specification: \<open>L\<^sub>0 = 0\<close> and
  \<open>L\<^sub>n = psi (L\<^sub>n\<^sub>-\<^sub>1, H) + LLR\<^sub>n\<close>, with
  \<open>LLR = (2 * meanPosition * x) / stdDev\<^sup>2\<close> for the \<open>n\<close>-th observation \<open>x\<close>.
\<close>

definition spec_LLR :: "TaskConfig \<Rightarrow> number \<Rightarrow> number" where
  "spec_LLR config x = (Num 2 * meanPosition config * x) / (stdDev config * stdDev config)"

fun spec_belief :: "TaskConfig \<Rightarrow> number \<Rightarrow> number list \<Rightarrow> nat \<Rightarrow> number" where
  "spec_belief config H xs 0 = Num 0"
| "spec_belief config H xs (Suc n) = psi (spec_belief config H xs n) H + spec_LLR config (xs ! n)"




text \<open>
  One iteration of the grid search on the pair \<open>(bestH, minNLL)\<close>, the values that
  the loop variable \<open>h\<close> takes from a given start, and the candidates written out.
\<close>

definition fitStep :: "TrialData list \<Rightarrow> TaskConfig \<Rightarrow> real \<times> number \<Rightarrow> real \<Rightarrow> real \<times> number" where
  "fitStep data config acc h =
     (let nll = calculateFitScore data config (Num h)
      in if js_lt nll (snd acc) then (h, nll) else acc)"

function gridFrom :: "real \<Rightarrow> real list" where
  "gridFrom h = (if h \<le> end_h then h # gridFrom (h + step) else [])"
  by pat_completeness auto
termination
proof (relation "measure (\<lambda>h. nat \<lceil>(end_h - h) * 100 + 1\<rceil>)")
  show "wf (measure (\<lambda>h. nat \<lceil>(end_h - h) * 100 + 1\<rceil>))"
    by simp
qed (simp_all add: step_def end_h_def, linarith+)

declare gridFrom.simps [simp del]

definition candidates :: "real list" where
  "candidates = map (\<lambda>k. 1 / 1000 + real k / 100) [0..<100]"

section \<open>The trial generator and the session composer\<close>

text \<open>
  The numbers of the generator are finite reals: the configuration values are finite and
  \<^verbatim>\<open>Math.random()\<close> returns a finite value in \<open>[0, 1)\<close>. Counts are natural numbers.
\<close>

definition LEFT_SOURCE_MEAN :: real where "LEFT_SOURCE_MEAN = 0.25"
definition RIGHT_SOURCE_MEAN :: real where "RIGHT_SOURCE_MEAN = 0.75"

datatype source = Left | Right

text \<open>The fields \<^verbatim>\<open>x\<close> and \<^verbatim>\<open>y\<close> of a trial are \<open>trial_x\<close> and \<open>trial_y\<close>.\<close>

record Trial =
  trialIndex :: nat
  source :: source
  trial_x :: real
  trial_y :: real

text \<open>
  The random source is an arbitrary sequence \<open>rnd\<close> of draws, read at a position that
  every call of \<^verbatim>\<open>Math.random()\<close> advances; each function takes the position and
  returns the new one with its result.
\<close>

definition Math_random :: "(nat \<Rightarrow> real) \<Rightarrow> nat \<Rightarrow> real \<times> nat" where
  "Math_random rnd j = (rnd j, Suc j)"

text \<open>
  The loops \<^verbatim>\<open>while (u === 0) u = Math.random()\<close> of \<^verbatim>\<open>randn_bm\<close> and the rejection
  loop of \<^verbatim>\<open>generateBlockTrials\<close> have no bound on their iterations: they are partial
  functions, and \<open>None\<close> stands for a run that does not return.
\<close>

partial_function (option) nonzero_draw :: "(nat \<Rightarrow> real) \<Rightarrow> nat \<Rightarrow> (real \<times> nat) option" where
  "nonzero_draw rnd j =
     (case Math_random rnd j of (u, j') \<Rightarrow> if u = 0 then nonzero_draw rnd j' else Some (u, j'))"

definition randn_bm :: "(nat \<Rightarrow> real) \<Rightarrow> nat \<Rightarrow> (real \<times> nat) option" where
  "randn_bm rnd j =
     do { (u, j1) \<leftarrow> nonzero_draw rnd j;
          (v, j2) \<leftarrow> nonzero_draw rnd j1;
          Some (sqrt (- 2.0 * ln u) * cos (2.0 * pi * v), j2) }"

text \<open>
  The two statements \<^verbatim>\<open>x = mu + randn_bm() * actualSigma; x = Math.max(0.05, Math.min(0.95, x))\<close>,
  which the source writes three times (first sample of x, resampling of x, sample of y).
\<close>

definition sample_clamped :: "(nat \<Rightarrow> real) \<Rightarrow> real \<Rightarrow> real \<Rightarrow> nat \<Rightarrow> (real \<times> nat) option" where
  "sample_clamped rnd mu actualSigma j =
     do { (z, j') \<leftarrow> randn_bm rnd j;
          let x = mu + z * actualSigma;
          Some (max 0.05 (min 0.95 x), j') }"

partial_function (option) rejection_loop ::
  "(nat \<Rightarrow> real) \<Rightarrow> real \<Rightarrow> real \<Rightarrow> real \<Rightarrow> nat \<Rightarrow> (real \<times> nat) option" where
  "rejection_loop rnd muX actualSigma x j =
     (if \<bar>x - 0.5\<bar> < 0.01
      then do { (x', j') \<leftarrow> sample_clamped rnd muX actualSigma j;
                rejection_loop rnd muX actualSigma x' j' }
      else Some (x, j))"

text \<open>The loop over the trial index \<open>i\<close>; \<open>currentSource\<close> is 0 for left and 1 for right.\<close>

function trialLoop ::
  "(nat \<Rightarrow> real) \<Rightarrow> nat \<Rightarrow> real \<Rightarrow> real \<Rightarrow> nat \<Rightarrow> nat \<Rightarrow> Trial list \<Rightarrow> nat
     \<Rightarrow> (Trial list \<times> nat) option" where
  "trialLoop rnd trialCount hazardRate actualSigma i currentSource trials j =
     (if i < trialCount then
        (case Math_random rnd j of (r, j1) \<Rightarrow>
           let currentSource' =
                 (if r < hazardRate then (if currentSource = 0 then 1 else 0) else currentSource);
               muX = (if currentSource' = 0 then LEFT_SOURCE_MEAN else RIGHT_SOURCE_MEAN);
               muY = 0.5
           in do { (x0, j2) \<leftarrow> sample_clamped rnd muX actualSigma j1;
                   (x, j3) \<leftarrow> rejection_loop rnd muX actualSigma x0 j2;
                   (y, j4) \<leftarrow> sample_clamped rnd muY actualSigma j3;
                   trialLoop rnd trialCount hazardRate actualSigma (i + 1) currentSource'
                     (trials @ [\<lparr> trialIndex = i,
                                  source = (if currentSource' = 0 then Left else Right),
                                  trial_x = x, trial_y = y \<rparr>]) j4 })
      else Some (trials, j))"
  by pat_completeness auto
termination
  by (relation "measure (\<lambda>(rnd, trialCount, hazardRate, actualSigma, i, currentSource, trials, j).
        trialCount - i)") auto

declare trialLoop.simps [simp del]

definition generateBlockTrials ::
  "(nat \<Rightarrow> real) \<Rightarrow> nat \<Rightarrow> real \<Rightarrow> real \<Rightarrow> nat \<Rightarrow> (Trial list \<times> nat) option" where
  "generateBlockTrials rnd trialCount hazardRate sigmaRatio j =
     (case Math_random rnd j of (r, j1) \<Rightarrow>
        let currentSource = (if r < 0.5 then 0 else 1);
            distance = RIGHT_SOURCE_MEAN - LEFT_SOURCE_MEAN;
            actualSigma = sigmaRatio * distance
        in trialLoop rnd trialCount hazardRate actualSigma 0 currentSource [] j1)"

record LabConfig =
  hazardRate :: real
  distributionSigma :: real
  rewardScale :: real
  trialCount :: nat
  blockCount :: nat
  blockName :: string

record SessionBlock =
  blockId :: nat
  hazardRate :: real
  trials :: "Trial list"




text \<open>Abbreviations for the statements about the generator.\<close>

definition flip_source :: "nat \<Rightarrow> nat" where
  "flip_source c = (if c = 0 then 1 else 0)"

definition source_of :: "nat \<Rightarrow> source" where
  "source_of c = (if c = 0 then Left else Right)"

definition next_source :: "real \<Rightarrow> real \<Rightarrow> nat \<Rightarrow> nat" where
  "next_source r H c = (if r < H then flip_source c else c)"

definition in_bounds :: "Trial \<Rightarrow> bool" where
  "in_bounds t = (0.05 \<le> trial_x t \<and> trial_x t \<le> 0.95 \<and> 0.05 \<le> trial_y t \<and> trial_y t \<le> 0.95
                  \<and> \<bar>trial_x t - 0.5\<bar> \<ge> 0.01)"

section \<open>Properties of the belief model\<close>


lemma Math_clamp_Num:
  "Math_max (Num 0.000001) (Math_min (Num 0.999999) (Num H)) = Num (clampH H)"
  by (simp add: clampH_def max_def min_def)

lemma stability_pos:
  assumes "0 < h" "h < 1" shows "0 < (1 - h) / (h::real)"
  using assms by simp

lemma psi_Num_gen:
  assumes "0 < h" "h < 1"
  shows "(let stabilityRatio = (Num 1 - Num h) / Num h;
          term1 = Math_log (stabilityRatio + Math_exp (- Num L));
          term2 = Math_log (stabilityRatio + Math_exp (Num L))
      in Num L + term1 - term2) = Num (psi_real L h)"
proof -
  have s: "0 < (1 - h) / h" using assms by simp
  have a: "0 < (1 - h) / h + exp (- L)" using s by (simp add: add_pos_pos)
  have b: "0 < (1 - h) / h + exp L" using s by (simp add: add_pos_pos)
  show ?thesis using assms a b
    by (simp add: minus_number_def psi_real_def Let_def)
qed

lemma psi_Num: "psi (Num L) (Num H) = Num (psi_real L (clampH H))"
proof -
  have "0 < clampH H" "clampH H < 1" by (simp_all add: clampH_def)
  from psi_Num_gen[OF this, of L] show ?thesis
    unfolding psi_def Math_clamp_Num by simp
qed




lemma psi_real_zero: "psi_real 0 h = 0"
  by (simp add: psi_real_def)


lemma calculateLLR_spec: "calculateLLR x config = spec_LLR config x"
  by (simp add: calculateLLR_def spec_LLR_def)

lemma beliefLoop_inv:
  "beliefLoop config H suf (spec_belief config H (map starPosition (pre @ suf)) (length pre))
      (map (\<lambda>n. spec_belief config H (map starPosition (pre @ suf)) (Suc n)) [0..<length pre])
   = map (\<lambda>n. spec_belief config H (map starPosition (pre @ suf)) (Suc n)) [0..<length (pre @ suf)]"
proof (induction suf arbitrary: pre)
  case Nil
  show ?case by simp
next
  case (Cons t rest)
  have "(map starPosition (pre @ t # rest)) ! length pre = starPosition t"
    by (simp add: nth_append)
  with Cons[of "pre @ [t]"] show ?case
    by (simp add: update_def calculateLLR_spec)
qed

lemma getBeliefTrajectory_map:
  "getBeliefTrajectory data config H
     = map (\<lambda>n. spec_belief config H (map starPosition data) (Suc n)) [0..<length data]"
  using beliefLoop_inv[of config H data "[]"] by (simp add: getBeliefTrajectory_def)





lemma Math_min_Num: "Math_min (Num a) (Num b) = Num (min a b)"
  by (simp add: min_def)









lemma fitStep_lt:
  "js_lt (calculateFitScore data config (Num h)) m
     \<Longrightarrow> fitStep data config (b, m) h = (h, calculateFitScore data config (Num h))"
  by (simp add: fitStep_def)

lemma fitStep_nlt:
  "\<not> js_lt (calculateFitScore data config (Num h)) m \<Longrightarrow> fitStep data config (b, m) h = (b, m)"
  by (simp add: fitStep_def)

lemma fitLoop_fold:
  "fitLoop data config h bestH minNLL = foldl (fitStep data config) (bestH, minNLL) (gridFrom h)"
proof (induction data config h bestH minNLL rule: fitLoop.induct)
  case (1 data config h bestH minNLL)
  show ?case
  proof (cases "h \<le> end_h")
    case False
    then show ?thesis
      by (subst fitLoop.simps, subst gridFrom.simps) simp
  next
    case True
    show ?thesis
    proof (cases "js_lt (calculateFitScore data config (Num h)) minNLL")
      case lt: True
      from 1(1)[OF True refl lt] True lt show ?thesis
        by (subst fitLoop.simps, subst gridFrom.simps) (simp add: fitStep_lt)
    next
      case nlt: False
      from 1(2)[OF True refl nlt] True nlt show ?thesis
        by (subst fitLoop.simps, subst gridFrom.simps) (simp add: fitStep_nlt)
    qed
  qed
qed

lemma gridFrom_upt:
  "k \<le> 100 \<Longrightarrow> gridFrom (1 / 1000 + real k / 100) = map (\<lambda>j. 1 / 1000 + real j / 100) [k..<100]"
proof (induction "100 - k" arbitrary: k)
  case 0
  then have k: "k = 100" by simp
  show ?case unfolding k by (subst gridFrom.simps) (simp add: end_h_def)
next
  case (Suc n)
  then have k: "k < 100" and n: "n = 100 - Suc k" and k': "Suc k \<le> 100" by simp_all
  have le: "1 / 1000 + real k / 100 \<le> end_h"
    using k by (simp add: end_h_def)
  have nx: "1 / 1000 + real k / 100 + step = 1 / 1000 + real (Suc k) / 100"
    by (simp add: step_def add_divide_distrib)
  have "gridFrom (1 / 1000 + real k / 100)
          = (1 / 1000 + real k / 100) # gridFrom (1 / 1000 + real (Suc k) / 100)"
    by (subst gridFrom.simps) (simp only: le if_True nx)
  also have "\<dots> = (1 / 1000 + real k / 100) # map (\<lambda>j. 1 / 1000 + real j / 100) [Suc k..<100]"
    using Suc.hyps(1)[OF n k'] by simp
  also have "\<dots> = map (\<lambda>j. 1 / 1000 + real j / 100) [k..<100]"
    using k by (simp add: upt_conv_Cons)
  finally show ?case .
qed

lemma gridFrom_start: "gridFrom start = candidates"
  using gridFrom_upt[of 0] by (simp add: start_def candidates_def)


lemma fold_argmin:
  assumes "\<And>c. c \<in> set cs \<Longrightarrow> calculateFitScore data config (Num c) = Num (g c)"
    and "cs \<noteq> []"
  shows "\<exists>k<length cs. foldl (fitStep data config) (b, PosInf) cs = (cs ! k, Num (g (cs ! k)))
           \<and> (\<forall>j<length cs. g (cs ! k) \<le> g (cs ! j)) \<and> (\<forall>j<k. g (cs ! k) < g (cs ! j))"
  using assms
proof (induction cs rule: rev_induct)
  case Nil
  then show ?case by simp
next
  case (snoc x xs)
  have fx: "calculateFitScore data config (Num x) = Num (g x)" using snoc.prems(1) by simp
  show ?case
  proof (cases "xs = []")
    case True
    then show ?thesis using fx by (simp add: fitStep_def)
  next
    case False
    have "\<exists>k<length xs. foldl (fitStep data config) (b, PosInf) xs = (xs ! k, Num (g (xs ! k)))
           \<and> (\<forall>j<length xs. g (xs ! k) \<le> g (xs ! j)) \<and> (\<forall>j<k. g (xs ! k) < g (xs ! j))"
      using snoc.prems(1) False by (intro snoc.IH) simp_all
    then obtain k where k: "k < length xs"
      and fk: "foldl (fitStep data config) (b, PosInf) xs = (xs ! k, Num (g (xs ! k)))"
      and mn: "\<forall>j<length xs. g (xs ! k) \<le> g (xs ! j)"
      and fst: "\<forall>j<k. g (xs ! k) < g (xs ! j)" by blast
    show ?thesis
    proof (cases "g x < g (xs ! k)")
      case True
      have r: "foldl (fitStep data config) (b, PosInf) (xs @ [x]) = (x, Num (g x))"
        using fk fx True by (simp add: fitStep_def)
      have "\<forall>j<length (xs @ [x]). g x \<le> g ((xs @ [x]) ! j)"
      proof (intro allI impI)
        fix j assume "j < length (xs @ [x])"
        then consider "j < length xs" | "j = length xs" by fastforce
        then show "g x \<le> g ((xs @ [x]) ! j)"
        proof cases
          case 1 then show ?thesis using mn True by (simp add: nth_append) (meson less_le_trans less_imp_le)
        next
          case 2 then show ?thesis by simp
        qed
      qed
      moreover have "\<forall>j<length xs. g x < g ((xs @ [x]) ! j)"
        using mn True by (simp add: nth_append) (meson less_le_trans)
      ultimately show ?thesis using r
        by (intro exI[of _ "length xs"]) simp
    next
      case False
      have r: "foldl (fitStep data config) (b, PosInf) (xs @ [x]) = (xs ! k, Num (g (xs ! k)))"
        using fk fx False by (simp add: fitStep_def)
      have "\<forall>j<length (xs @ [x]). g (xs ! k) \<le> g ((xs @ [x]) ! j)"
      proof (intro allI impI)
        fix j assume "j < length (xs @ [x])"
        then consider "j < length xs" | "j = length xs" by fastforce
        then show "g (xs ! k) \<le> g ((xs @ [x]) ! j)"
        proof cases
          case 1 then show ?thesis using mn by (simp add: nth_append)
        next
          case 2 then show ?thesis using False by simp
        qed
      qed
      moreover have "\<forall>j<k. g (xs ! k) < g ((xs @ [x]) ! j)"
        using fst k by (simp add: nth_append)
      ultimately show ?thesis using r k
        by (intro exI[of _ k]) (simp add: nth_append)
    qed
  qed
qed


lemma candidates_nth: "k < 100 \<Longrightarrow> candidates ! k = 1 / 1000 + real k / 100"
  by (simp add: candidates_def)


lemma getBeliefTrajectory_length: "length (getBeliefTrajectory data config H) = length data"
  by (simp add: getBeliefTrajectory_map)

text \<open>
  Claim C1. For every evidence sequence and every hazard rate, \<open>getBeliefTrajectory\<close>
  returns a trajectory as long as its input, whose \<open>n\<close>-th element is the \<open>n\<close>-th
  value of the reference recursion \<open>L\<^sub>0 = 0\<close>, \<open>L\<^sub>n = psi L\<^sub>n\<^sub>-\<^sub>1 H + LLR\<^sub>n\<close>.
\<close>

theorem getBeliefTrajectory_recursion:
  "length (getBeliefTrajectory data config H) = length data
   \<and> (\<forall>n<length data. getBeliefTrajectory data config H ! n
          = spec_belief config H (map starPosition data) (Suc n))"
  by (simp add: getBeliefTrajectory_map del: spec_belief.simps)

theorem getBeliefTrajectory_recursion_witness:
  "length (getBeliefTrajectory
      [\<lparr>starPosition = Num (3 / 10), userChoice = Choice1\<rparr>,
       \<lparr>starPosition = Num (- 1 / 10), userChoice = Choice0\<rparr>]
      \<lparr>meanPosition = Num (1 / 4), stdDev = Num (3 / 25)\<rparr> (Num (3 / 10))) = 2
   \<and> getBeliefTrajectory
      [\<lparr>starPosition = Num (3 / 10), userChoice = Choice1\<rparr>,
       \<lparr>starPosition = Num (- 1 / 10), userChoice = Choice0\<rparr>]
      \<lparr>meanPosition = Num (1 / 4), stdDev = Num (3 / 25)\<rparr> (Num (3 / 10)) ! 1
     = spec_belief \<lparr>meanPosition = Num (1 / 4), stdDev = Num (3 / 25)\<rparr> (Num (3 / 10))
         [Num (3 / 10), Num (- 1 / 10)] (Suc 1)"
  using getBeliefTrajectory_recursion
    [of "[\<lparr>starPosition = Num (3 / 10), userChoice = Choice1\<rparr>,
          \<lparr>starPosition = Num (- 1 / 10), userChoice = Choice0\<rparr>]"
        "\<lparr>meanPosition = Num (1 / 4), stdDev = Num (3 / 25)\<rparr>" "Num (3 / 10)"]
  by (simp del: spec_belief.simps)





text \<open>
  Claim C9. A neutral previous belief stays neutral: \<open>psi 0 H = 0\<close> for every hazard rate.
\<close>

theorem psi_neutral: "psi (Num 0) (Num H) = Num 0"
  by (simp add: psi_Num psi_real_zero)

lemma plus_NaN_right [simp]: "a + NaN = (NaN :: number)"
  by (cases a) simp_all

lemma times_NaN_right [simp]: "a * NaN = (NaN :: number)"
  by (cases a) simp_all

lemma calculateFitScore_Nil: "calculateFitScore [] config H = Num 0"
  by (simp add: calculateFitScore_def nllLoop.simps)

lemma getBeliefTrajectory_Nil: "getBeliefTrajectory [] config H = []"
  by (simp add: getBeliefTrajectory_def)

lemma fitSubjectiveH_fold:
  "fitSubjectiveH data config =
     (let (bestH, minNLL) = foldl (fitStep data config) (0.5, PosInf) candidates
      in \<lparr> fittedH = Num bestH,
           beliefTrajectory = getBeliefTrajectory data config (Num bestH) \<rparr>)"
  by (simp only: fitSubjectiveH_def fitLoop_fold gridFrom_start)

lemma candidates_ne: "candidates \<noteq> []"
  by (simp add: candidates_def)









text \<open>
  Claim C10. On the empty sequence of trials, for every task config and hazard rate,
  \<open>getBeliefTrajectory\<close> returns the empty trajectory, \<open>calculateFitScore\<close> returns 0, and
  \<open>fitSubjectiveH\<close> returns the first candidate 0.001 with an empty trajectory.
\<close>

theorem empty_data:
  "getBeliefTrajectory [] config H = []
   \<and> calculateFitScore [] config H = Num 0
   \<and> fittedH (fitSubjectiveH [] config) = Num 0.001
   \<and> beliefTrajectory (fitSubjectiveH [] config) = []"
proof -
  have "\<exists>k<length candidates. foldl (fitStep [] config) (0.5, PosInf) candidates
            = (candidates ! k, Num ((\<lambda>_. 0) (candidates ! k)))
          \<and> (\<forall>j<length candidates. (\<lambda>_. 0::real) (candidates ! k) \<le> (\<lambda>_. 0) (candidates ! j))
          \<and> (\<forall>j<k. (\<lambda>_. 0::real) (candidates ! k) < (\<lambda>_. 0) (candidates ! j))"
    by (rule fold_argmin) (simp_all add: calculateFitScore_Nil candidates_ne)
  then obtain k where k: "foldl (fitStep [] config) (0.5, PosInf) candidates = (candidates ! k, Num 0)"
    and "\<forall>j<k. (0::real) < 0" by blast
  then have "k = 0" by auto
  with k have "foldl (fitStep [] config) (0.5, PosInf) candidates = (1 / 1000, Num 0)"
    by (simp add: candidates_nth)
  then have "fitSubjectiveH [] config
      = \<lparr>fittedH = Num (1 / 1000), beliefTrajectory = getBeliefTrajectory [] config (Num (1 / 1000))\<rparr>"
    unfolding fitSubjectiveH_fold by simp
  then show ?thesis
    by (simp add: getBeliefTrajectory_Nil calculateFitScore_Nil)
qed







section \<open>Properties of the generator\<close>

lemma clamp_range:
  "(1 / 20 :: real) \<le> max (1 / 20) (min (19 / 20) z)" "max (1 / 20) (min (19 / 20) z) \<le> (19 / 20 :: real)"
  by simp_all

lemma sample_clamped_range:
  assumes "sample_clamped rnd mu s j = Some (x, j')"
  shows "1 / 20 \<le> x \<and> x \<le> 19 / 20"
proof -
  from assms obtain z where "x = max (1 / 20) (min (19 / 20) (mu + z * s))"
    by (auto simp: sample_clamped_def Let_def split: Option.bind_splits)
  then show ?thesis using clamp_range[of "mu + z * s"] by simp
qed

lemma rejection_loop_exit:
  assumes "rejection_loop rnd muX s x j = Some y"
  shows "1 / 20 \<le> x \<and> x \<le> 19 / 20
     \<longrightarrow> \<not> \<bar>fst y - 1 / 2\<bar> < 1 / 100 \<and> 1 / 20 \<le> fst y \<and> fst y \<le> 19 / 20"
proof (rule rejection_loop.raw_induct
    [where P = "\<lambda>(rnd :: nat \<Rightarrow> real) (muX :: real) (s :: real) (x :: real) (j :: nat) (y :: real \<times> nat).
           1 / 20 \<le> x \<and> x \<le> 19 / 20
         \<longrightarrow> \<not> \<bar>fst y - 1 / 2\<bar> < 1 / 100 \<and> 1 / 20 \<le> fst y \<and> fst y \<le> 19 / 20"
       and xa = "((((rnd, muX), s), x), j)" and y = y, unfolded prod.case])
  show "rejection_loop rnd muX s x j = Some y" by (rule assms)
next
  fix f :: "(nat \<Rightarrow> real) \<Rightarrow> real \<Rightarrow> real \<Rightarrow> real \<Rightarrow> nat \<Rightarrow> (real \<times> nat) option"
    and rnd muX s x j y
  assume IH: "\<And>rnd muX s x j y. f rnd muX s x j = Some y \<Longrightarrow>
      1 / 20 \<le> x \<and> x \<le> 19 / 20
        \<longrightarrow> \<not> \<bar>fst y - 1 / 2\<bar> < 1 / 100 \<and> 1 / 20 \<le> fst y \<and> fst y \<le> 19 / 20"
    and body: "(if \<bar>x - 0.5\<bar> < 0.01
        then do { (x', j') \<leftarrow> sample_clamped rnd muX s j; f rnd muX s x' j' }
        else Some (x, j)) = Some y"
  show "1 / 20 \<le> x \<and> x \<le> 19 / 20
        \<longrightarrow> \<not> \<bar>fst y - 1 / 2\<bar> < 1 / 100 \<and> 1 / 20 \<le> fst y \<and> fst y \<le> 19 / 20"
  proof (cases "\<bar>x - 0.5\<bar> < 0.01")
    case False
    with body show ?thesis by auto
  next
    case True
    with body obtain x' j' where sc: "sample_clamped rnd muX s j = Some (x', j')"
      and r: "f rnd muX s x' j' = Some y"
      by (auto split: Option.bind_splits)
    from IH[OF r] sample_clamped_range[OF sc] show ?thesis by simp
  qed
qed

lemma trialLoop_done:
  "\<not> i < n \<Longrightarrow> trialLoop rnd n H sigma i c acc j = Some (acc, j)"
  by (subst trialLoop.simps) simp

lemma trialLoop_step:
  assumes "i < n" "trialLoop rnd n H sigma i c acc j = Some res"
  shows "\<exists>x0 j2 x j3 y j4.
           sample_clamped rnd (if next_source (rnd j) H c = 0 then LEFT_SOURCE_MEAN else RIGHT_SOURCE_MEAN)
              sigma (Suc j) = Some (x0, j2)
         \<and> rejection_loop rnd (if next_source (rnd j) H c = 0 then LEFT_SOURCE_MEAN else RIGHT_SOURCE_MEAN)
              sigma x0 j2 = Some (x, j3)
         \<and> sample_clamped rnd 0.5 sigma j3 = Some (y, j4)
         \<and> trialLoop rnd n H sigma (i + 1) (next_source (rnd j) H c)
              (acc @ [\<lparr> trialIndex = i, source = source_of (next_source (rnd j) H c),
                         trial_x = x, trial_y = y \<rparr>]) j4 = Some res"
proof -
  from assms(2) have
    "(case Math_random rnd j of (r, j1) \<Rightarrow>
           let currentSource' =
                 (if r < H then (if c = 0 then 1 else 0) else c);
               muX = (if currentSource' = 0 then LEFT_SOURCE_MEAN else RIGHT_SOURCE_MEAN);
               muY = 0.5
           in do { (x0, j2) \<leftarrow> sample_clamped rnd muX sigma j1;
                   (x, j3) \<leftarrow> rejection_loop rnd muX sigma x0 j2;
                   (y, j4) \<leftarrow> sample_clamped rnd muY sigma j3;
                   trialLoop rnd n H sigma (i + 1) currentSource'
                     (acc @ [\<lparr> trialIndex = i,
                                  source = (if currentSource' = 0 then Left else Right),
                                  trial_x = x, trial_y = y \<rparr>]) j4 }) = Some res"
    by (subst (asm) trialLoop.simps) (simp only: assms(1) if_True)
  then show ?thesis
    unfolding Math_random_def Let_def prod.case next_source_def flip_source_def source_of_def
    by (auto split: Option.bind_splits)
qed

lemma trialLoop_bounds:
  "trialLoop rnd n H sigma i c acc j = Some (ts, j')
     \<Longrightarrow> \<exists>new. ts = acc @ new \<and> length new = n - i \<and> (\<forall>t\<in>set new. in_bounds t)"
proof (induction "n - i" arbitrary: i c acc j)
  case 0
  then have "\<not> i < n" by simp
  from trialLoop_done[OF this] 0 show ?case by simp
next
  case (Suc k)
  then have lt: "i < n" by simp
  from trialLoop_step[OF lt Suc.prems] obtain x0 j2 x j3 y j4 where
    s1: "sample_clamped rnd (if next_source (rnd j) H c = 0 then LEFT_SOURCE_MEAN else RIGHT_SOURCE_MEAN)
              sigma (Suc j) = Some (x0, j2)"
    and rj: "rejection_loop rnd (if next_source (rnd j) H c = 0 then LEFT_SOURCE_MEAN else RIGHT_SOURCE_MEAN)
              sigma x0 j2 = Some (x, j3)"
    and s2: "sample_clamped rnd 0.5 sigma j3 = Some (y, j4)"
    and rec: "trialLoop rnd n H sigma (i + 1) (next_source (rnd j) H c)
              (acc @ [\<lparr> trialIndex = i, source = source_of (next_source (rnd j) H c),
                         trial_x = x, trial_y = y \<rparr>]) j4 = Some (ts, j')"
    by blast
  let ?t = "\<lparr> trialIndex = i, source = source_of (next_source (rnd j) H c), trial_x = x, trial_y = y \<rparr>"
  have k: "k = n - (i + 1)" using Suc.hyps(2) by simp
  from Suc.hyps(1)[OF k rec] obtain new where
    new: "ts = (acc @ [?t]) @ new" "length new = n - (i + 1)" "\<forall>t\<in>set new. in_bounds t"
    by blast
  from rejection_loop_exit[OF rj] sample_clamped_range[OF s1] sample_clamped_range[OF s2]
  have "in_bounds ?t" by (simp add: in_bounds_def not_less)
  with new lt show ?case
    by (intro exI[of _ "?t # new"]) simp
qed

lemma trialLoop_never_switches:
  assumes "\<And>m. 0 \<le> rnd m"
  shows "trialLoop rnd n 0 sigma i c acc j = Some (ts, j')
     \<Longrightarrow> \<exists>new. ts = acc @ new \<and> (\<forall>t\<in>set new. source t = source_of c)"
proof (induction "n - i" arbitrary: i acc j)
  case 0
  then have "\<not> i < n" by simp
  from trialLoop_done[OF this] 0 show ?case by simp
next
  case (Suc k)
  then have lt: "i < n" by simp
  have ns: "next_source (rnd j) 0 c = c" using assms[of j] by (simp add: next_source_def)
  from trialLoop_step[OF lt Suc.prems] obtain x y j4 where
    rec: "trialLoop rnd n 0 sigma (i + 1) c
              (acc @ [\<lparr> trialIndex = i, source = source_of c, trial_x = x, trial_y = y \<rparr>]) j4
            = Some (ts, j')"
    unfolding ns by blast
  let ?t = "\<lparr> trialIndex = i, source = source_of c, trial_x = x, trial_y = y \<rparr>"
  have k: "k = n - (i + 1)" using Suc.hyps(2) by simp
  from Suc.hyps(1)[OF k rec] obtain new where
    new: "ts = (acc @ [?t]) @ new" "\<forall>t\<in>set new. source t = source_of c"
    by blast
  then show ?case
    by (intro exI[of _ "?t # new"]) simp
qed

lemma source_of_flip_flip: "source_of (flip_source (flip_source c)) = source_of c"
  by (simp add: source_of_def flip_source_def)

lemma trialLoop_always_switches:
  assumes "\<And>m. rnd m < 1"
  shows "trialLoop rnd n 1 sigma i c acc j = Some (ts, j')
     \<Longrightarrow> \<exists>new. ts = acc @ new \<and> length new = n - i
           \<and> (\<forall>k<length new. source (new ! k)
                  = (if even k then source_of (flip_source c) else source_of c))"
proof (induction "n - i" arbitrary: i c acc j)
  case 0
  then have "\<not> i < n" by simp
  from trialLoop_done[OF this] 0 show ?case by simp
next
  case (Suc d)
  then have lt: "i < n" by simp
  have ns: "next_source (rnd j) 1 c = flip_source c" using assms[of j] by (simp add: next_source_def)
  from trialLoop_step[OF lt Suc.prems] obtain x y j4 where
    rec: "trialLoop rnd n 1 sigma (i + 1) (flip_source c)
              (acc @ [\<lparr> trialIndex = i, source = source_of (flip_source c), trial_x = x, trial_y = y \<rparr>]) j4
            = Some (ts, j')"
    unfolding ns by blast
  let ?t = "\<lparr> trialIndex = i, source = source_of (flip_source c), trial_x = x, trial_y = y \<rparr>"
  have d: "d = n - (i + 1)" using Suc.hyps(2) by simp
  from Suc.hyps(1)[OF d rec] obtain new where
    new: "ts = (acc @ [?t]) @ new" "length new = n - (i + 1)"
      "\<forall>k<length new. source (new ! k)
          = (if even k then source_of (flip_source (flip_source c)) else source_of (flip_source c))"
    by blast
  have "\<forall>k<length (?t # new). source ((?t # new) ! k)
          = (if even k then source_of (flip_source c) else source_of c)"
  proof (intro allI impI)
    fix k assume kl: "k < length (?t # new)"
    show "source ((?t # new) ! k) = (if even k then source_of (flip_source c) else source_of c)"
    proof (cases k)
      case 0
      then show ?thesis by simp
    next
      case (Suc k')
      with kl have "k' < length new" by simp
      with new(3) Suc show ?thesis by (simp add: source_of_flip_flip)
    qed
  qed
  with new(1,2) lt show ?case
    by (intro exI[of _ "?t # new"]) simp
qed

lemma generateBlockTrials_unfold:
  "generateBlockTrials rnd n H sigma j
     = trialLoop rnd n H (sigma * (RIGHT_SOURCE_MEAN - LEFT_SOURCE_MEAN)) 0
         (if rnd j < 0.5 then 0 else 1) [] (Suc j)"
  by (simp add: generateBlockTrials_def Math_random_def Let_def)

lemma generateBlockTrials_length:
  "generateBlockTrials rnd n H sigma j = Some (ts, j') \<Longrightarrow> length ts = n"
  unfolding generateBlockTrials_unfold by (drule trialLoop_bounds) auto

text \<open>A run on the constant draw 1/4, for which the Box-Muller sample is 0.\<close>

lemma randn_bm_quarter: "randn_bm (\<lambda>_. 1 / 4) j = Some (0, Suc (Suc j))"
  by (simp add: randn_bm_def nonzero_draw.simps Math_random_def)

lemma sample_clamped_quarter:
  "1 / 20 \<le> mu \<Longrightarrow> mu \<le> 19 / 20 \<Longrightarrow> sample_clamped (\<lambda>_. 1 / 4) mu s j = Some (mu, Suc (Suc j))"
  by (simp add: sample_clamped_def randn_bm_quarter)

lemma run_two_trials_H1:
  "generateBlockTrials (\<lambda>_. 1 / 4) 2 1 (6 / 25) 0
     = Some ([\<lparr>trialIndex = 0, source = Right, trial_x = 3 / 4, trial_y = 1 / 2\<rparr>,
              \<lparr>trialIndex = 1, source = Left, trial_x = 1 / 4, trial_y = 1 / 2\<rparr>], 11)"
  by (simp add: generateBlockTrials_unfold trialLoop.simps Math_random_def sample_clamped_quarter
      rejection_loop.simps LEFT_SOURCE_MEAN_def RIGHT_SOURCE_MEAN_def Let_def)

lemma run_two_trials_H0:
  "generateBlockTrials (\<lambda>_. 1 / 4) 2 0 (6 / 25) 0
     = Some ([\<lparr>trialIndex = 0, source = Left, trial_x = 1 / 4, trial_y = 1 / 2\<rparr>,
              \<lparr>trialIndex = 1, source = Left, trial_x = 1 / 4, trial_y = 1 / 2\<rparr>], 11)"
  by (simp add: generateBlockTrials_unfold trialLoop.simps Math_random_def sample_clamped_quarter
      rejection_loop.simps LEFT_SOURCE_MEAN_def RIGHT_SOURCE_MEAN_def Let_def)

text \<open>
  Claim C3. Whatever the trial count, the hazard rate, the noise ratio and the random draws,
  every trial that \<open>generateBlockTrials\<close> emits has \<open>0.05 \<le> x \<le> 0.95\<close>,
  \<open>0.05 \<le> y \<le> 0.95\<close> and \<open>\<bar>x - 0.5\<bar> \<ge> 0.01\<close>.
\<close>

theorem generated_trials_in_bounds:
  assumes "generateBlockTrials rnd n H sigma j = Some (ts, j')"
    and "\<forall>m. 0 \<le> rnd m \<and> rnd m < 1"
  shows "\<forall>t\<in>set ts. 0.05 \<le> trial_x t \<and> trial_x t \<le> 0.95 \<and> 0.05 \<le> trial_y t \<and> trial_y t \<le> 0.95
           \<and> \<bar>trial_x t - 0.5\<bar> \<ge> 0.01"
proof -
  from assms(1) have "\<exists>new. ts = [] @ new \<and> length new = n - 0 \<and> (\<forall>t\<in>set new. in_bounds t)"
    unfolding generateBlockTrials_unfold by (rule trialLoop_bounds)
  then show ?thesis by (simp add: in_bounds_def)
qed

theorem generated_trials_in_bounds_witness:
  "generateBlockTrials (\<lambda>_. 1 / 4) 2 1 (6 / 25) 0
     = Some ([\<lparr>trialIndex = 0, source = Right, trial_x = 3 / 4, trial_y = 1 / 2\<rparr>,
              \<lparr>trialIndex = 1, source = Left, trial_x = 1 / 4, trial_y = 1 / 2\<rparr>], 11)
   \<and> 0.05 \<le> trial_x \<lparr>trialIndex = 0, source = Right, trial_x = 3 / 4, trial_y = 1 / 2\<rparr>
   \<and> trial_x \<lparr>trialIndex = 0, source = Right, trial_x = 3 / 4, trial_y = 1 / 2\<rparr> \<le> 0.95
   \<and> 0.05 \<le> trial_y \<lparr>trialIndex = 0, source = Right, trial_x = 3 / 4, trial_y = 1 / 2\<rparr>
   \<and> trial_y \<lparr>trialIndex = 0, source = Right, trial_x = 3 / 4, trial_y = 1 / 2\<rparr> \<le> 0.95
   \<and> \<bar>trial_x \<lparr>trialIndex = 1, source = Left, trial_x = 1 / 4, trial_y = 1 / 2\<rparr> - 0.5\<bar> \<ge> 0.01"
proof -
  have d: "\<forall>m. 0 \<le> (\<lambda>_. 1 / 4 :: real) m \<and> (\<lambda>_. 1 / 4 :: real) m < 1" by simp
  from generated_trials_in_bounds [OF run_two_trials_H1 d] show ?thesis
    by (simp add: run_two_trials_H1)
qed

text \<open>
  Claim C8. With every draw in \<open>[0, 1)\<close>: for hazard rate 0 all trials of a block carry the
  source of the initial draw, and for hazard rate 1 the source switches on every trial, so
  that consecutive trials alternate.
\<close>

theorem hazard_zero_and_one:
  assumes "\<forall>m. 0 \<le> rnd m \<and> rnd m < 1"
  shows "(generateBlockTrials rnd n 0 sigma j = Some (ts, j') \<longrightarrow>
            (\<forall>t\<in>set ts. source t = (if rnd j < 0.5 then Left else Right)))
       \<and> (generateBlockTrials rnd n 1 sigma j = Some (ts, j') \<longrightarrow>
            (\<forall>k<length ts. source (ts ! k)
                 = (if even k = (rnd j < 0.5) then Right else Left))
            \<and> (\<forall>k. Suc k < length ts \<longrightarrow> source (ts ! Suc k) \<noteq> source (ts ! k)))"
proof (intro conjI impI)
  assume "generateBlockTrials rnd n 0 sigma j = Some (ts, j')"
  then have "\<exists>new. ts = [] @ new \<and> (\<forall>t\<in>set new. source t = source_of (if rnd j < 0.5 then 0 else 1))"
    unfolding generateBlockTrials_unfold using assms by (intro trialLoop_never_switches) simp_all
  then show "\<forall>t\<in>set ts. source t = (if rnd j < 0.5 then Left else Right)"
    by (simp add: source_of_def)
next
  assume "generateBlockTrials rnd n 1 sigma j = Some (ts, j')"
  then have "\<exists>new. ts = [] @ new \<and> length new = n - 0
           \<and> (\<forall>k<length new. source (new ! k)
                  = (if even k then source_of (flip_source (if rnd j < 0.5 then 0 else 1))
                     else source_of (if rnd j < 0.5 then 0 else 1)))"
    unfolding generateBlockTrials_unfold using assms by (intro trialLoop_always_switches) simp_all
  then have alt: "\<forall>k<length ts. source (ts ! k) = (if even k = (rnd j < 0.5) then Right else Left)"
    by (simp add: source_of_def flip_source_def)
  then show "\<forall>k<length ts. source (ts ! k) = (if even k = (rnd j < 0.5) then Right else Left)" .
  show "\<forall>k. Suc k < length ts \<longrightarrow> source (ts ! Suc k) \<noteq> source (ts ! k)"
  proof (intro allI impI)
    fix k assume k: "Suc k < length ts"
    then have "k < length ts" by simp
    with alt k show "source (ts ! Suc k) \<noteq> source (ts ! k)" by auto
  qed
qed

theorem hazard_zero_and_one_witness:
  "generateBlockTrials (\<lambda>_. 1 / 4) 2 0 (6 / 25) 0
     = Some ([\<lparr>trialIndex = 0, source = Left, trial_x = 1 / 4, trial_y = 1 / 2\<rparr>,
              \<lparr>trialIndex = 1, source = Left, trial_x = 1 / 4, trial_y = 1 / 2\<rparr>], 11)
   \<and> source \<lparr>trialIndex = 0, source = Left, trial_x = 1 / 4, trial_y = 1 / 2\<rparr> = Left
   \<and> source \<lparr>trialIndex = 1, source = Left, trial_x = 1 / 4, trial_y = 1 / 2\<rparr> = Left
   \<and> generateBlockTrials (\<lambda>_. 1 / 4) 2 1 (6 / 25) 0
     = Some ([\<lparr>trialIndex = 0, source = Right, trial_x = 3 / 4, trial_y = 1 / 2\<rparr>,
              \<lparr>trialIndex = 1, source = Left, trial_x = 1 / 4, trial_y = 1 / 2\<rparr>], 11)
   \<and> source \<lparr>trialIndex = 0, source = Right, trial_x = 3 / 4, trial_y = 1 / 2\<rparr> = Right
   \<and> source \<lparr>trialIndex = 1, source = Left, trial_x = 1 / 4, trial_y = 1 / 2\<rparr>
       \<noteq> source \<lparr>trialIndex = 0, source = Right, trial_x = 3 / 4, trial_y = 1 / 2\<rparr>"
proof -
  have d: "\<forall>m. 0 \<le> (\<lambda>_. 1 / 4 :: real) m \<and> (\<lambda>_. 1 / 4 :: real) m < 1" by simp
  from hazard_zero_and_one [OF d, of 2 "6 / 25" 0 _ 11] run_two_trials_H0 run_two_trials_H1
  show ?thesis by simp
qed










end
